theory Spec2Isabelle
  imports Complex_Main "HOL-Library.Multiset"
begin

section \<open>Data model of the traffic lattice\<close>

text \<open>
  The embedding follows \<^verbatim>\<open>traffic_lattice.h\<close> and its implementation file.
  C++ \<^verbatim>\<open>double\<close> and \<^verbatim>\<open>float\<close> values are idealised as \<^typ>\<open>real\<close>, \<^verbatim>\<open>size_t\<close>
  identifiers as \<^typ>\<open>nat\<close>, the signed lane id as \<^typ>\<open>int\<close>.  Every
  \<^verbatim>\<open>throw std::runtime_error\<close> is a constructor of \<open>error\<close>; dereferencing the
  begin or front of an empty container (undefined behaviour in C++) is the outcome
  \<open>EmptyContainer\<close>.
\<close>

datatype error =
    LaneIdZero
  | RangeTooSmall
  | UnsortableRoads
  | NodesNotFound
  | NodesDisconnected
  | CollisionsDetected
  | EmptyContainer

record Location =
  loc_x :: real
  loc_y :: real
  loc_z :: real

record Rotation =
  pitch :: real
  yaw :: real
  roll :: real

record CarlaTransform =
  location :: Location
  rotation :: Rotation

record CarlaBoundingBox =
  bb_location :: Location
  extent :: Location

text \<open>What the code reads of a \<^verbatim>\<open>carla::client::Waypoint\<close>.\<close>

record CarlaWaypoint =
  GetId :: nat
  GetRoadId :: nat
  GetLaneId :: int
  GetDistance :: real

text \<open>
  What the code reads of the map: the waypoint a location resolves to, and
  \<^verbatim>\<open>GetMap().GetMap().GetRoad(id).GetLength()\<close>.
\<close>

record CarlaMap =
  GetWaypoint :: "Location \<Rightarrow> CarlaWaypoint"
  GetRoadLength :: "nat \<Rightarrow> real"

text \<open>The router: \<^verbatim>\<open>boost::optional<size_t>\<close> answers.\<close>

record Router =
  prevRoad :: "nat \<Rightarrow> nat option"
  nextRoad :: "nat \<Rightarrow> nat option"

text \<open>
  \<^verbatim>\<open>WaypointNodeWithVehicle\<close>.  Nodes live in a store indexed by addresses
  (\<^typ>\<open>nat\<close>); a pointer to a node is its address, the forward link \<^verbatim>\<open>front()\<close> is
  an optional address (\<open>None\<close> when \<^verbatim>\<open>lock()\<close> yields null).
\<close>

record Node =
  waypoint :: CarlaWaypoint
  distance :: real
  vehicle :: "nat option"
  front :: "nat option"

type_synonym VehicleTuple = "nat \<times> CarlaTransform \<times> CarlaBoundingBox"

record TrafficLattice =
  longitudinal_resolution :: real
  lattice_entry :: "nat option"
  lattice_exit :: "nat option"
  nodes :: "nat \<Rightarrow> Node"
  vehicle_to_nodes_table :: "nat \<rightharpoonup> nat list"

section \<open>Vehicle geometry\<close>

definition vehicleWaypoint :: "CarlaMap \<Rightarrow> CarlaTransform \<Rightarrow> CarlaWaypoint" where
  "vehicleWaypoint cmap transform = GetWaypoint cmap (location transform)"

definition vehicleHeadWaypoint ::
  "CarlaMap \<Rightarrow> CarlaTransform \<Rightarrow> CarlaBoundingBox \<Rightarrow> CarlaWaypoint" where
  "vehicleHeadWaypoint cmap transform bounding_box =
     (let sin_yaw = sin (yaw (rotation transform) / 180 * pi);
          cos_yaw = cos (yaw (rotation transform) / 180 * pi);
          waypoint_location =
            \<lparr> loc_x = cos_yaw * loc_x (extent bounding_box) + loc_x (location transform),
              loc_y = sin_yaw * loc_x (extent bounding_box) + loc_y (location transform),
              loc_z = loc_z (location transform) \<rparr>
      in GetWaypoint cmap waypoint_location)"

definition vehicleRearWaypoint ::
  "CarlaMap \<Rightarrow> CarlaTransform \<Rightarrow> CarlaBoundingBox \<Rightarrow> CarlaWaypoint" where
  "vehicleRearWaypoint cmap transform bounding_box =
     (let sin_yaw = sin (yaw (rotation transform) / 180 * pi);
          cos_yaw = cos (yaw (rotation transform) / 180 * pi);
          waypoint_location =
            \<lparr> loc_x = - cos_yaw * loc_x (extent bounding_box) + loc_x (location transform),
              loc_y = - sin_yaw * loc_x (extent bounding_box) + loc_y (location transform),
              loc_z = loc_z (location transform) \<rparr>
      in GetWaypoint cmap waypoint_location)"

section \<open>Distance of a waypoint from the start of its road\<close>

definition waypointToRoadStartDistance :: "CarlaMap \<Rightarrow> CarlaWaypoint \<Rightarrow> error + real" where
  "waypointToRoadStartDistance cmap w =
     (if GetLaneId w = 0 then Inl LaneIdZero
      else if GetLaneId w > 0 then Inr (GetRoadLength cmap (GetRoadId w) - GetDistance w)
      else Inr (GetDistance w))"

section \<open>Registering vehicles onto the nodes\<close>

text \<open>
  The \<^verbatim>\<open>while\<close> loop of \<^verbatim>\<open>registerVehicles\<close> that walks from the rear node along
  the forward links until a node with the head node's waypoint id is met.  The loop
  has no bound in the source, so the model carries fuel: \<open>None\<close> means that the
  fuel ran out before the loop ended.  \<open>acc\<close> is the vector \<^verbatim>\<open>nodes\<close>.
\<close>

fun walk :: "nat \<Rightarrow> (nat \<Rightarrow> Node) \<Rightarrow> nat \<Rightarrow> nat \<Rightarrow> nat list \<Rightarrow> (error + nat list) option" where
  "walk 0 ns head_id next_node acc = None"
| "walk (Suc k) ns head_id next_node acc =
     (if GetId (waypoint (ns next_node)) \<noteq> head_id then
        (case front (ns next_node) of
           Some n \<Rightarrow> walk k ns head_id n (acc @ [next_node])
         | None \<Rightarrow> Some (Inl NodesDisconnected))
      else Some (Inr acc))"

text \<open>
  The \<^verbatim>\<open>for (auto& node : nodes)\<close> loop: a node that already carries a vehicle
  ends the pass with \<^verbatim>\<open>return false\<close>; otherwise the node is marked at once.
\<close>

fun mark :: "nat \<Rightarrow> nat list \<Rightarrow> (nat \<Rightarrow> Node) \<Rightarrow> bool \<times> (nat \<Rightarrow> Node)" where
  "mark vid [] ns = (True, ns)"
| "mark vid (n # rest) ns =
     (if vehicle (ns n) \<noteq> None then (False, ns)
      else mark vid rest (ns(n := (ns n)\<lparr>vehicle := Some vid\<rparr>)))"

text \<open>
  One iteration of the loop over the vehicles.  \<open>closestNode\<close> is the lookup of the
  base class \<^verbatim>\<open>Lattice\<close> (whose code is not part of these sources), taken as a
  parameter: waypoint and tolerance to an optional node address.  It looks at the
  nodes and links of the lattice, which a registration pass does not change, so one
  function serves the whole pass.  The outcome is paired with the object's state at
  that moment: \<open>Inl e\<close> for a throw, \<open>Inr b\<close> where the iteration ends normally
  (\<open>True\<close>) or returns \<^verbatim>\<open>false\<close>.
\<close>

definition registerVehicle ::
  "nat \<Rightarrow> CarlaMap \<Rightarrow> (CarlaWaypoint \<Rightarrow> real \<Rightarrow> nat option) \<Rightarrow> VehicleTuple \<Rightarrow> TrafficLattice
     \<Rightarrow> ((error + bool) \<times> TrafficLattice) option" where
  "registerVehicle fuel cmap closestNode v lat =
     (case v of (vid, transform, bounding_box) \<Rightarrow>
        let head_waypoint = vehicleHeadWaypoint cmap transform bounding_box;
            rear_waypoint = vehicleRearWaypoint cmap transform bounding_box;
            head_node = closestNode head_waypoint (longitudinal_resolution lat / 2);
            rear_node = closestNode rear_waypoint (longitudinal_resolution lat / 2)
        in (case (head_node, rear_node) of
              (Some h, Some r) \<Rightarrow>
                (case walk fuel (nodes lat) (GetId (waypoint (nodes lat h))) r [] of
                   None \<Rightarrow> None
                 | Some (Inl e) \<Rightarrow> Some (Inl e, lat)
                 | Some (Inr walked) \<Rightarrow>
                     (case mark vid (walked @ [h]) (nodes lat) of
                        (False, ns') \<Rightarrow> Some (Inr False, lat\<lparr>nodes := ns'\<rparr>)
                      | (True, ns') \<Rightarrow>
                          Some (Inr True,
                            lat\<lparr>nodes := ns',
                               vehicle_to_nodes_table :=
                                 (vehicle_to_nodes_table lat)(vid \<mapsto> walked @ [h])\<rparr>)))
            | _ \<Rightarrow> Some (Inl NodesNotFound, lat)))"

fun registerLoop ::
  "nat \<Rightarrow> CarlaMap \<Rightarrow> (CarlaWaypoint \<Rightarrow> real \<Rightarrow> nat option) \<Rightarrow> VehicleTuple list \<Rightarrow> TrafficLattice
     \<Rightarrow> ((error + bool) \<times> TrafficLattice) option" where
  "registerLoop fuel cmap closestNode [] lat = Some (Inr True, lat)"
| "registerLoop fuel cmap closestNode (v # vs) lat =
     (case registerVehicle fuel cmap closestNode v lat of
        None \<Rightarrow> None
      | Some (Inr True, lat') \<Rightarrow> registerLoop fuel cmap closestNode vs lat'
      | Some r \<Rightarrow> Some r)"

definition registerVehicles ::
  "nat \<Rightarrow> CarlaMap \<Rightarrow> (CarlaWaypoint \<Rightarrow> real \<Rightarrow> nat option) \<Rightarrow> VehicleTuple list \<Rightarrow> TrafficLattice
     \<Rightarrow> ((error + bool) \<times> TrafficLattice) option" where
  "registerVehicles fuel cmap closestNode vehicles lat =
     registerLoop fuel cmap closestNode vehicles (lat\<lparr>vehicle_to_nodes_table := Map.empty\<rparr>)"

section \<open>Sorting the roads into a chain\<close>

text \<open>
  One round of the \<^verbatim>\<open>for\<close> loop of \<^verbatim>\<open>sortRoads\<close>, up to the \<^verbatim>\<open>break\<close> test: the
  state is the deque \<^verbatim>\<open>sorted_roads\<close> (never empty: it starts with the seed) and the
  set \<^verbatim>\<open>remaining_roads\<close>.
\<close>

definition expandRound :: "Router \<Rightarrow> nat list \<times> nat set \<Rightarrow> nat list \<times> nat set" where
  "expandRound router s =
     (case s of (sorted_roads, remaining_roads) \<Rightarrow>
        let first_road = hd sorted_roads;
            last_road = last sorted_roads;
            new_first_road = prevRoad router first_road;
            new_last_road = nextRoad router last_road;
            s1 = (case new_first_road of
                    Some r \<Rightarrow>
                      (r # sorted_roads,
                       if remaining_roads \<noteq> {} then remaining_roads - {r} else remaining_roads)
                  | None \<Rightarrow> (sorted_roads, remaining_roads));
            s2 = (case new_last_road of
                    Some r \<Rightarrow> (fst s1 @ [r], if snd s1 \<noteq> {} then snd s1 - {r} else snd s1)
                  | None \<Rightarrow> s1)
        in s2)"

text \<open>The loop \<^verbatim>\<open>for (size_t i = 0; i < 5; ++i)\<close> with its \<^verbatim>\<open>break\<close>; the first argument
  counts the rounds that are left.\<close>

fun expandLoop :: "nat \<Rightarrow> Router \<Rightarrow> nat list \<times> nat set \<Rightarrow> nat list \<times> nat set" where
  "expandLoop 0 router s = s"
| "expandLoop (Suc i) router s =
     (let s' = expandRound router s in if snd s' = {} then s' else expandLoop i router s')"

text \<open>The two trimming loops.  They stop at a road of the input; the seed is one.\<close>

definition trimFront :: "nat set \<Rightarrow> nat list \<Rightarrow> nat list" where
  "trimFront roads sorted_roads = dropWhile (\<lambda>r. r \<notin> roads) sorted_roads"

definition trimBack :: "nat set \<Rightarrow> nat list \<Rightarrow> nat list" where
  "trimBack roads sorted_roads = rev (dropWhile (\<lambda>r. r \<notin> roads) (rev sorted_roads))"

text \<open>
  \<open>seed\<close> is the element \<^verbatim>\<open>*(remaining_roads.begin())\<close>: which element of an
  \<^verbatim>\<open>unordered_set\<close> comes first is unspecified, so it is an argument, and any member of
  \<open>roads\<close> can be it.  A set without that element has no first element (the empty
  set), and the dereference is undefined.
\<close>

definition sortRoads :: "Router \<Rightarrow> nat set \<Rightarrow> nat \<Rightarrow> error + nat list" where
  "sortRoads router roads seed =
     (if seed \<notin> roads then Inl EmptyContainer
      else case expandLoop 5 router ([seed], roads - {seed}) of
        (sorted_roads, remaining_roads) \<Rightarrow>
          if remaining_roads \<noteq> {} then Inl UnsortableRoads
          else Inr (trimBack roads (trimFront roads sorted_roads)))"

section \<open>Start and range of the lattice\<close>

text \<open>
  The two \<^verbatim>\<open>unordered_map\<close>s keyed by vehicle id, as the list of their entries: a
  later vehicle with the same id replaces an earlier one.  The order in which an
  \<^verbatim>\<open>unordered_map\<close> is traversed is unspecified; the model keeps the order of the
  input.
\<close>

fun arrangeById :: "VehicleTuple list \<Rightarrow> VehicleTuple list" where
  "arrangeById [] = []"
| "arrangeById (v # vs) =
     (if fst v \<in> fst ` set vs then arrangeById vs else v # arrangeById vs)"

text \<open>Road and distance of the centre of a vehicle.\<close>

definition vehicleRoad :: "CarlaMap \<Rightarrow> VehicleTuple \<Rightarrow> nat" where
  "vehicleRoad cmap v = GetRoadId (vehicleWaypoint cmap (fst (snd v)))"

definition centerDistance :: "CarlaMap \<Rightarrow> VehicleTuple \<Rightarrow> error + real" where
  "centerDistance cmap v = waypointToRoadStartDistance cmap (vehicleWaypoint cmap (fst (snd v)))"

text \<open>The entry of a road in \<^verbatim>\<open>road_to_vehicles_table\<close> (empty for a road without vehicle).\<close>

definition roadVehicles :: "CarlaMap \<Rightarrow> VehicleTuple list \<Rightarrow> nat \<Rightarrow> VehicleTuple list" where
  "roadVehicles cmap byId road = filter (\<lambda>v. vehicleRoad cmap v = road) byId"

text \<open>
  \<^verbatim>\<open>std::sort\<close> of the vehicles of one road by the distance of their centres.  The
  comparator throws for a centre on lane 0; it is called as soon as there are two
  vehicles to compare.  Which of two vehicles at the same distance comes first is
  unspecified in C++; the model sorts stably.
\<close>

definition sortOnRoad :: "CarlaMap \<Rightarrow> VehicleTuple list \<Rightarrow> error + VehicleTuple list" where
  "sortOnRoad cmap road_vehicles =
     (if 2 \<le> length road_vehicles \<and> list_ex (\<lambda>v. isl (centerDistance cmap v)) road_vehicles
      then Inl LaneIdZero
      else Inr (sort_key (\<lambda>v. case centerDistance cmap v of Inr d \<Rightarrow> d | Inl e \<Rightarrow> 0)
                  road_vehicles))"

text \<open>The range: the lengths of the roads of the chain, adjusted at both ends.\<close>

definition latticeRange ::
  "CarlaMap \<Rightarrow> nat list \<Rightarrow> CarlaWaypoint \<Rightarrow> CarlaWaypoint \<Rightarrow> error + real" where
  "latticeRange cmap sorted_roads first_waypoint last_waypoint =
     (let range0 = sum_list (map (GetRoadLength cmap) sorted_roads);
          front_part =
            (if GetRoadId first_waypoint = hd sorted_roads then
               (case waypointToRoadStartDistance cmap first_waypoint of
                  Inl e \<Rightarrow> Inl e
                | Inr d \<Rightarrow> Inr (range0 - d))
             else Inr (range0 + 5))
      in case front_part of
           Inl e \<Rightarrow> Inl e
         | Inr range1 \<Rightarrow>
             (if GetRoadId last_waypoint = last sorted_roads then
                (case waypointToRoadStartDistance cmap last_waypoint of
                   Inl e \<Rightarrow> Inl e
                 | Inr d \<Rightarrow> Inr (range1 - (GetRoadLength cmap (last sorted_roads) - d)))
              else Inr (range1 + 5)))"

text \<open>
  \<open>seed\<close> is the first element of the \<^verbatim>\<open>unordered_set\<close> of roads, as for
  \<open>sortRoads\<close>.  \<^verbatim>\<open>front()\<close> or \<^verbatim>\<open>back()\<close> of an empty vector is
  \<open>EmptyContainer\<close>.
\<close>

definition latticeStartAndRange ::
  "CarlaMap \<Rightarrow> Router \<Rightarrow> nat \<Rightarrow> VehicleTuple list \<Rightarrow> error + (CarlaWaypoint \<times> real)" where
  "latticeStartAndRange cmap router seed vehicles =
     (let byId = arrangeById vehicles;
          roads = set (map (vehicleRoad cmap) byId);
          road_to_vehicles_table = (\<lambda>road. sortOnRoad cmap (roadVehicles cmap byId road))
      in if list_ex (\<lambda>v. isl (road_to_vehicles_table (vehicleRoad cmap v))) byId
         then Inl LaneIdZero
         else
           (case sortRoads router roads seed of
              Inl e \<Rightarrow> Inl e
            | Inr sorted_roads \<Rightarrow>
                (case (sorted_roads,
                       road_to_vehicles_table (hd sorted_roads),
                       road_to_vehicles_table (last sorted_roads)) of
                   (_ # _, Inr (first_vehicle # _), Inr (v # vs)) \<Rightarrow>
                     (let last_vehicle = last (v # vs);
                          first_waypoint =
                            vehicleRearWaypoint cmap (fst (snd first_vehicle)) (snd (snd first_vehicle));
                          last_waypoint =
                            vehicleHeadWaypoint cmap (fst (snd last_vehicle)) (snd (snd last_vehicle))
                      in case latticeRange cmap sorted_roads first_waypoint last_waypoint of
                           Inl e \<Rightarrow> Inl e
                         | Inr lattice_range \<Rightarrow> Inr (first_waypoint, lattice_range))
                 | _ \<Rightarrow> Inl EmptyContainer)))"

section \<open>The constructors\<close>

text \<open>What the second constructor reads of a \<^verbatim>\<open>carla::client::Vehicle\<close>.\<close>

record CarlaVehicle =
  VehicleGetId :: nat
  GetTransform :: CarlaTransform
  GetBoundingBox :: CarlaBoundingBox

text \<open>
  The methods of the base class \<^verbatim>\<open>Lattice\<close> that the constructors and the registration
  call.  Their code is not part of these sources, so they are parameters of the
  model (\<open>extendBy\<close> is \<^verbatim>\<open>extend\<close>, which may throw).
\<close>

record LatticeBase =
  augmentWaypointToNodeTable :: "nat \<Rightarrow> nat \<Rightarrow> TrafficLattice \<Rightarrow> TrafficLattice"
  augmentRoadlaneToWaypointsTable :: "CarlaWaypoint \<Rightarrow> TrafficLattice \<Rightarrow> TrafficLattice"
  extendBy :: "real \<Rightarrow> TrafficLattice \<Rightarrow> error + TrafficLattice"
  closestNode :: "TrafficLattice \<Rightarrow> CarlaWaypoint \<Rightarrow> real \<Rightarrow> nat option"

text \<open>
  Modelled from the spec: the base class methods, whose code is missing, leave the
  resolution alone (``resolution is a positive constant for the lifetime of one
  lattice instance'').
\<close>

definition keeps_resolution :: "LatticeBase \<Rightarrow> bool" where
  "keeps_resolution base \<longleftrightarrow>
     (\<forall>i n l. longitudinal_resolution (augmentWaypointToNodeTable base i n l)
                = longitudinal_resolution l)
     \<and> (\<forall>w l. longitudinal_resolution (augmentRoadlaneToWaypointsTable base w l)
                = longitudinal_resolution l)
     \<and> (\<forall>r l l'. extendBy base r l = Inr l' \<longrightarrow> longitudinal_resolution l' = longitudinal_resolution l)"

text \<open>
  The members of the object when a constructor body starts: no entry, no exit, an
  empty table, and a store with a default node at every address.  The initial
  resolution is never read, both constructors assign it first.
\<close>

definition newLattice :: TrafficLattice where
  "newLattice =
     \<lparr> longitudinal_resolution = 0, lattice_entry = None, lattice_exit = None,
       nodes = (\<lambda>a. \<lparr> waypoint = \<lparr> GetId = 0, GetRoadId = 0, GetLaneId = 0, GetDistance = 0 \<rparr>,
                       distance = 0, vehicle = None, front = None \<rparr>),
       vehicle_to_nodes_table = Map.empty \<rparr>"

text \<open>The start node is the first node of the new object, at address 0.\<close>

definition baseConstructor ::
  "LatticeBase \<Rightarrow> CarlaWaypoint \<Rightarrow> real \<Rightarrow> real \<Rightarrow> TrafficLattice \<Rightarrow> error + TrafficLattice" where
  "baseConstructor base start lattice_range resolution lat =
     (let lat1 = lat\<lparr>longitudinal_resolution := resolution\<rparr>
      in if lattice_range \<le> longitudinal_resolution lat1 then Inl RangeTooSmall
         else
           (let start_node = 0;
                lat2 = lat1\<lparr>nodes := (nodes lat1)
                              (start_node := \<lparr> waypoint = start, distance = 0,
                                              vehicle = None, front = None \<rparr>),
                            lattice_entry := Some start_node,
                            lattice_exit := Some start_node\<rparr>;
                lat3 = augmentWaypointToNodeTable base (GetId start) start_node lat2;
                lat4 = augmentRoadlaneToWaypointsTable base start lat3
            in extendBy base lattice_range lat4))"

text \<open>
  The constructor from vehicle tuples.  \<open>seed\<close> is the first element of the set of
  roads (see \<open>sortRoads\<close>), \<open>fuel\<close> bounds the walks of the registration; a
  \<^verbatim>\<open>false\<close> from \<open>registerVehicles\<close> becomes the collision throw.
\<close>

definition newTrafficLattice ::
  "LatticeBase \<Rightarrow> CarlaMap \<Rightarrow> Router \<Rightarrow> nat \<Rightarrow> nat \<Rightarrow> VehicleTuple list
     \<Rightarrow> (error + TrafficLattice) option" where
  "newTrafficLattice base cmap router seed fuel vehicles =
     (case latticeStartAndRange cmap router seed vehicles of
        Inl e \<Rightarrow> Some (Inl e)
      | Inr (start_waypoint, lattice_range) \<Rightarrow>
          (case baseConstructor base start_waypoint lattice_range 1
                  (newLattice\<lparr>longitudinal_resolution := 1\<rparr>) of
             Inl e \<Rightarrow> Some (Inl e)
           | Inr lat \<Rightarrow>
               (case registerVehicles fuel cmap (closestNode base lat) vehicles lat of
                  None \<Rightarrow> None
                | Some (Inl e, lat') \<Rightarrow> Some (Inl e)
                | Some (Inr False, lat') \<Rightarrow> Some (Inl CollisionsDetected)
                | Some (Inr True, lat') \<Rightarrow> Some (Inr lat'))))"

text \<open>
  The constructor from vehicle handles builds the tuples and then runs the same
  statements as the first one.
\<close>

definition newTrafficLatticeFromVehicles ::
  "LatticeBase \<Rightarrow> CarlaMap \<Rightarrow> Router \<Rightarrow> nat \<Rightarrow> nat \<Rightarrow> CarlaVehicle list
     \<Rightarrow> (error + TrafficLattice) option" where
  "newTrafficLatticeFromVehicles base cmap router seed fuel vehicles =
     (let vehicle_tuples =
            map (\<lambda>vehicle. (VehicleGetId vehicle, GetTransform vehicle, GetBoundingBox vehicle))
              vehicles
      in newTrafficLattice base cmap router seed fuel vehicle_tuples)"

section \<open>Notions used in the statements\<close>

text \<open>A sequence of nodes in which each node's forward link is the next node.\<close>

fun linked :: "(nat \<Rightarrow> Node) \<Rightarrow> nat list \<Rightarrow> bool" where
  "linked ns (a # b # rest) = (front (ns a) = Some b \<and> linked ns (b # rest))"
| "linked ns _ = True"

text \<open>
  Modelled from the spec: the base class \<^verbatim>\<open>Lattice\<close>, whose code is missing, owns
  the nodes of the lattice.  \<open>N\<close> is the set of their addresses: forward links
  lead from a node of the lattice to a node of the lattice, and no two nodes of the
  lattice have the same waypoint (``a node's identity is its underlying road
  position''; the constructor files the start node under its waypoint id).
  Addresses outside \<open>N\<close> hold no node of the lattice and are not constrained.
  The walk of \<open>registerVehicles\<close> compares waypoint ids, not node addresses.
\<close>

definition node_identity :: "nat set \<Rightarrow> (nat \<Rightarrow> Node) \<Rightarrow> bool" where
  "node_identity N ns \<longleftrightarrow>
     (\<forall>a \<in> N. \<forall>b. front (ns a) = Some b \<longrightarrow> b \<in> N)
     \<and> (\<forall>a \<in> N. \<forall>b \<in> N. GetId (waypoint (ns a)) = GetId (waypoint (ns b)) \<longrightarrow> a = b)"

text \<open>Every node recorded for a vehicle carries that vehicle's id.\<close>

definition table_marked :: "TrafficLattice \<Rightarrow> bool" where
  "table_marked lat \<longleftrightarrow>
     (\<forall>i ns n. vehicle_to_nodes_table lat i = Some ns \<longrightarrow> n \<in> set ns \<longrightarrow> vehicle (nodes lat n) = Some i)"

text \<open>The part of the lattice that a registration pass only reads.\<close>

definition same_structure :: "TrafficLattice \<Rightarrow> TrafficLattice \<Rightarrow> bool" where
  "same_structure lat lat' \<longleftrightarrow>
     longitudinal_resolution lat' = longitudinal_resolution lat
     \<and> (\<forall>n. front (nodes lat' n) = front (nodes lat n) \<and> waypoint (nodes lat' n) = waypoint (nodes lat n))"

text \<open>The store after all nodes of \<open>xs\<close> have been marked with \<open>vid\<close>.\<close>

definition marked :: "nat \<Rightarrow> nat list \<Rightarrow> (nat \<Rightarrow> Node) \<Rightarrow> nat \<Rightarrow> Node" where
  "marked vid xs ns = (\<lambda>n. if n \<in> set xs then (ns n)\<lparr>vehicle := Some vid\<rparr> else ns n)"





section \<open>Concrete instances for evaluation\<close>

text \<open>
  A straight road of length 100 with lane id \<open>-1\<close>, ten nodes at the distances
  \<open>0, 1, ..., 9\<close> linked forward, a nearest-node lookup that rounds the distance
  and honours the tolerance, and vehicles heading along the road (yaw \<open>0\<close>).
\<close>

definition example_map :: CarlaMap where
  "example_map =
     \<lparr> GetWaypoint = (\<lambda>l. \<lparr> GetId = nat \<lfloor>loc_x l\<rfloor>, GetRoadId = 0, GetLaneId = - 1, GetDistance = loc_x l \<rparr>),
       GetRoadLength = (\<lambda>r. 100) \<rparr>"

definition example_nodes :: "nat \<Rightarrow> Node" where
  "example_nodes a =
     \<lparr> waypoint = \<lparr> GetId = a, GetRoadId = 0, GetLaneId = - 1, GetDistance = real a \<rparr>,
       distance = real a, vehicle = None,
       front = (if a < 9 then Some (Suc a) else None) \<rparr>"

definition example_lattice :: TrafficLattice where
  "example_lattice =
     \<lparr> longitudinal_resolution = 1, lattice_entry = Some 0, lattice_exit = Some 9,
       nodes = example_nodes, vehicle_to_nodes_table = Map.empty \<rparr>"

definition example_closestNode :: "CarlaWaypoint \<Rightarrow> real \<Rightarrow> nat option" where
  "example_closestNode w tol =
     (let n = nat \<lfloor>GetDistance w + 1 / 2\<rfloor>
      in if n < 10 \<and> \<bar>GetDistance w - real n\<bar> \<le> tol then Some n else None)"

definition example_vehicle :: "nat \<Rightarrow> real \<Rightarrow> real \<Rightarrow> VehicleTuple" where
  "example_vehicle vid cx ext =
     (vid,
      \<lparr> location = \<lparr> loc_x = cx, loc_y = 0, loc_z = 0 \<rparr>,
        rotation = \<lparr> pitch = 0, yaw = 0, roll = 0 \<rparr> \<rparr>,
      \<lparr> bb_location = \<lparr> loc_x = 0, loc_y = 0, loc_z = 0 \<rparr>,
        extent = \<lparr> loc_x = ext, loc_y = 1, loc_z = 1 \<rparr> \<rparr>)"

text \<open>A vehicle that heads against the direction of the lattice (yaw 180 degrees).\<close>

definition example_reversed_vehicle :: "nat \<Rightarrow> real \<Rightarrow> real \<Rightarrow> VehicleTuple" where
  "example_reversed_vehicle vid cx ext =
     (vid,
      \<lparr> location = \<lparr> loc_x = cx, loc_y = 0, loc_z = 0 \<rparr>,
        rotation = \<lparr> pitch = 0, yaw = 180, roll = 0 \<rparr> \<rparr>,
      \<lparr> bb_location = \<lparr> loc_x = 0, loc_y = 0, loc_z = 0 \<rparr>,
        extent = \<lparr> loc_x = ext, loc_y = 1, loc_z = 1 \<rparr> \<rparr>)"

text \<open>A registration pass over the concrete lattice.\<close>

definition example_pass :: "VehicleTuple list \<Rightarrow> ((error + bool) \<times> TrafficLattice) option" where
  "example_pass vs = registerVehicles 10 example_map example_closestNode vs example_lattice"

text \<open>
  Base class methods for the concrete lattice: the tables are not modelled, and
  extending installs the ten nodes.
\<close>

definition example_base :: LatticeBase where
  "example_base =
     \<lparr> augmentWaypointToNodeTable = (\<lambda>wid node lat. lat),
       augmentRoadlaneToWaypointsTable = (\<lambda>w lat. lat),
       extendBy = (\<lambda>lattice_range lat. Inr (lat\<lparr>nodes := example_nodes, lattice_exit := Some 9\<rparr>)),
       closestNode = (\<lambda>lat. example_closestNode) \<rparr>"

text \<open>A lookup that answers at the tolerance \<open>1/2\<close> only.\<close>

definition example_strict_lookup :: "TrafficLattice \<Rightarrow> CarlaWaypoint \<Rightarrow> real \<Rightarrow> nat option" where
  "example_strict_lookup lat w tol = (if tol = 1 / 2 then example_closestNode w tol else None)"

text \<open>A router over the roads \<open>1, ..., 8\<close> in a line, with dead ends at both sides.\<close>

definition example_router :: Router where
  "example_router =
     \<lparr> prevRoad = (\<lambda>r. if 1 < r \<and> r \<le> 8 then Some (r - 1) else None),
       nextRoad = (\<lambda>r. if 1 \<le> r \<and> r < 8 then Some (r + 1) else None) \<rparr>"



section \<open>Properties of the registration\<close>

lemma walk_fuel:
  "walk k ns head_id n acc =
     (if k = 0 then None
      else if GetId (waypoint (ns n)) \<noteq> head_id then
        (case front (ns n) of
           Some m \<Rightarrow> walk (k - 1) ns head_id m (acc @ [n])
         | None \<Rightarrow> Some (Inl NodesDisconnected))
      else Some (Inr acc))"
  by (cases k) (simp_all split: option.splits)

lemmas example_defs = example_map_def example_nodes_def example_lattice_def
  example_closestNode_def example_vehicle_def

lemmas register_defs = registerVehicles_def registerVehicle_def vehicleHeadWaypoint_def
  vehicleRearWaypoint_def

lemma mark_True_marked:
  "mark vid xs ns = (True, ns') \<Longrightarrow> n \<in> set xs \<Longrightarrow> vehicle (ns' n) = Some vid"
proof (induction xs arbitrary: ns)
  case Nil then show ?case by simp
next
  case (Cons a xs)
  have keep: "\<And>m ms. mark vid xs ms = (True, ns') \<Longrightarrow> vehicle (ms m) = Some vid \<Longrightarrow> vehicle (ns' m) = Some vid"
  proof -
    fix m ms show "mark vid xs ms = (True, ns') \<Longrightarrow> vehicle (ms m) = Some vid \<Longrightarrow> vehicle (ns' m) = Some vid"
      by (induction xs arbitrary: ms) (auto split: if_splits)
  qed
  from Cons show ?case
    by (auto split: if_splits dest: keep)
qed

lemma mark_keeps_occupied:
  "mark vid xs ns = (b, ns') \<Longrightarrow> vehicle (ns n) = Some w \<Longrightarrow> vehicle (ns' n) = Some w"
proof (induction xs arbitrary: ns)
  case Nil then show ?case by simp
next
  case (Cons a xs)
  show ?case
  proof (cases "vehicle (ns a) \<noteq> None")
    case True with Cons.prems show ?thesis by simp
  next
    case False
    with Cons.prems have "a \<noteq> n" by auto
    let ?ns = "ns(a := (ns a)\<lparr>vehicle := Some vid\<rparr>)"
    from False Cons.prems have 1: "mark vid xs ?ns = (b, ns')" by simp
    from \<open>a \<noteq> n\<close> Cons.prems have 2: "vehicle (?ns n) = Some w" by simp
    from 1 2 show ?thesis by (rule Cons.IH)
  qed
qed

lemma mark_front: "mark vid xs ns = (b, ns') \<Longrightarrow> front (ns' n) = front (ns n)"
  by (induction xs arbitrary: ns) (auto split: if_splits)

lemma mark_waypoint: "mark vid xs ns = (b, ns') \<Longrightarrow> waypoint (ns' n) = waypoint (ns n)"
  by (induction xs arbitrary: ns) (auto split: if_splits)

lemma registerVehicle_success:
  assumes "registerVehicle fuel cmap cn v lat = Some (Inr True, lat')"
  obtains walked h where
    "cn (vehicleHeadWaypoint cmap (fst (snd v)) (snd (snd v))) (longitudinal_resolution lat / 2) = Some h"
    "mark (fst v) (walked @ [h]) (nodes lat) = (True, nodes lat')"
    "vehicle_to_nodes_table lat' = (vehicle_to_nodes_table lat)(fst v \<mapsto> walked @ [h])"
    "longitudinal_resolution lat' = longitudinal_resolution lat"
  using assms unfolding registerVehicle_def
  by (auto simp: Let_def split: prod.splits option.splits sum.splits bool.splits)

lemma registerVehicle_table_marked:
  assumes "registerVehicle fuel cmap cn v lat = Some (Inr True, lat')" and "table_marked lat"
  shows "table_marked lat'"
proof -
  from assms(1) obtain walked h where
    m: "mark (fst v) (walked @ [h]) (nodes lat) = (True, nodes lat')" and
    t: "vehicle_to_nodes_table lat' = (vehicle_to_nodes_table lat)(fst v \<mapsto> walked @ [h])"
    by (rule registerVehicle_success)
  show ?thesis
    unfolding table_marked_def
  proof (intro allI impI)
    fix i ns n
    assume a: "vehicle_to_nodes_table lat' i = Some ns" "n \<in> set ns"
    show "vehicle (nodes lat' n) = Some i"
    proof (cases "i = fst v")
      case True
      with a t have "ns = walked @ [h]" by simp
      with a m True show ?thesis using mark_True_marked by metis
    next
      case False
      with a t have "vehicle_to_nodes_table lat i = Some ns" by simp
      with a assms(2) have "vehicle (nodes lat n) = Some i" unfolding table_marked_def by blast
      with m show ?thesis by (rule mark_keeps_occupied)
    qed
  qed
qed

lemma registerLoop_table_marked:
  "registerLoop fuel cmap cn vs lat = Some (Inr True, lat') \<Longrightarrow> table_marked lat \<Longrightarrow> table_marked lat'"
proof (induction vs arbitrary: lat)
  case Nil then show ?case by simp
next
  case (Cons v vs)
  then show ?case
    by (auto split: option.splits prod.splits sum.splits bool.splits dest: registerVehicle_table_marked)
qed

lemma registerLoop_dom:
  "registerLoop fuel cmap cn vs lat = Some (Inr True, lat') \<Longrightarrow>
   dom (vehicle_to_nodes_table lat') = dom (vehicle_to_nodes_table lat) \<union> fst ` set vs"
proof (induction vs arbitrary: lat)
  case Nil then show ?case by simp
next
  case (Cons v vs)
  from Cons.prems obtain lat1 where
    1: "registerVehicle fuel cmap cn v lat = Some (Inr True, lat1)" and
    2: "registerLoop fuel cmap cn vs lat1 = Some (Inr True, lat')"
    by (auto split: option.splits prod.splits sum.splits bool.splits)
  from 1 obtain walked h where
    "vehicle_to_nodes_table lat1 = (vehicle_to_nodes_table lat)(fst v \<mapsto> walked @ [h])"
    by (rule registerVehicle_success)
  with Cons.IH[OF 2] show ?case by auto
qed

text \<open>
  Claim C2.  After a pass of \<open>registerVehicles\<close> that returns \<open>true\<close>, any two
  vehicles of the input with distinct ids have table entries whose node sets are
  disjoint, and every node recorded for an id carries exactly that id in its single
  \<open>vehicle\<close> field.
\<close>

theorem registerVehicles_no_double_occupancy:
  assumes "registerVehicles fuel cmap cn vehicles lat = Some (Inr True, lat')"
  shows "(\<forall>v \<in> set vehicles. \<forall>w \<in> set vehicles. fst v \<noteq> fst w \<longrightarrow>
            (\<exists>nv nw. vehicle_to_nodes_table lat' (fst v) = Some nv \<and>
                     vehicle_to_nodes_table lat' (fst w) = Some nw \<and> set nv \<inter> set nw = {}))
       \<and> (\<forall>i ns. vehicle_to_nodes_table lat' i = Some ns \<longrightarrow>
            (\<forall>n \<in> set ns. vehicle (nodes lat' n) = Some i))"
proof -
  let ?l0 = "lat\<lparr>vehicle_to_nodes_table := Map.empty\<rparr>"
  from assms have run: "registerLoop fuel cmap cn vehicles ?l0 = Some (Inr True, lat')"
    by (simp add: registerVehicles_def)
  have "table_marked ?l0" by (simp add: table_marked_def)
  with run have tm: "table_marked lat'" by (rule registerLoop_table_marked)
  from registerLoop_dom[OF run] have d: "dom (vehicle_to_nodes_table lat') = fst ` set vehicles" by simp
  have a: "\<exists>nv nw. vehicle_to_nodes_table lat' (fst v) = Some nv \<and>
                     vehicle_to_nodes_table lat' (fst w) = Some nw \<and> set nv \<inter> set nw = {}"
    if "v \<in> set vehicles" "w \<in> set vehicles" "fst v \<noteq> fst w" for v w
  proof -
    from that d obtain nv nw where
      s: "vehicle_to_nodes_table lat' (fst v) = Some nv" "vehicle_to_nodes_table lat' (fst w) = Some nw"
      by (metis domD imageI)
    have "set nv \<inter> set nw = {}"
    proof (rule ccontr)
      assume "set nv \<inter> set nw \<noteq> {}"
      then obtain n where "n \<in> set nv" "n \<in> set nw" by blast
      with s tm have "vehicle (nodes lat' n) = Some (fst v)" "vehicle (nodes lat' n) = Some (fst w)"
        unfolding table_marked_def by blast+
      with that(3) show False by simp
    qed
    with s show ?thesis by blast
  qed
  have b: "\<forall>i ns. vehicle_to_nodes_table lat' i = Some ns \<longrightarrow>
            (\<forall>n \<in> set ns. vehicle (nodes lat' n) = Some i)"
    using tm unfolding table_marked_def by blast
  from a b show ?thesis by blast
qed

theorem registerVehicles_no_double_occupancy_witness:
  "\<exists>lat'. registerVehicles 10 example_map example_closestNode
            [example_vehicle 1 2 1, example_vehicle 2 6 1] example_lattice = Some (Inr True, lat')
        \<and> vehicle_to_nodes_table lat' 1 = Some [1, 2, 3]
        \<and> vehicle_to_nodes_table lat' 2 = Some [5, 6, 7]
        \<and> set [1, 2, 3] \<inter> set [5, 6, 7 :: nat] = {}
        \<and> vehicle (nodes lat' 2) = Some 1"
proof -
  let ?vs = "[example_vehicle 1 2 1, example_vehicle 2 6 1]"
  obtain lat' where
    run: "registerVehicles 10 example_map example_closestNode ?vs example_lattice = Some (Inr True, lat')"
    and t: "vehicle_to_nodes_table lat' 1 = Some [1, 2, 3]" "vehicle_to_nodes_table lat' 2 = Some [5, 6, 7]"
    by (simp add: example_defs register_defs walk_fuel)
  note th = registerVehicles_no_double_occupancy [OF run]
  from th have "\<exists>nv nw. vehicle_to_nodes_table lat' (fst (example_vehicle 1 2 1)) = Some nv \<and>
       vehicle_to_nodes_table lat' (fst (example_vehicle 2 6 1)) = Some nw \<and> set nv \<inter> set nw = {}"
    by (simp add: example_vehicle_def)
  with t have d: "set [1, 2, 3] \<inter> set [5, 6, 7 :: nat] = {}"
    by (simp add: example_vehicle_def)
  from th t(1) have "vehicle (nodes lat' 2) = Some 1" by simp
  with run t d show ?thesis by blast
qed

section \<open>Distance convention and vehicle geometry\<close>

text \<open>
  Claim C7.  \<open>waypointToRoadStartDistance\<close> yields the road length minus the
  waypoint's offset for a positive lane id, the offset itself for a negative lane
  id, and throws for lane id 0.
\<close>

theorem waypointToRoadStartDistance_convention:
  "(0 < GetLaneId w \<longrightarrow>
      waypointToRoadStartDistance cmap w = Inr (GetRoadLength cmap (GetRoadId w) - GetDistance w))
   \<and> (GetLaneId w < 0 \<longrightarrow> waypointToRoadStartDistance cmap w = Inr (GetDistance w))
   \<and> (GetLaneId w = 0 \<longrightarrow> waypointToRoadStartDistance cmap w = Inl LaneIdZero)"
  by (simp add: waypointToRoadStartDistance_def)

theorem waypointToRoadStartDistance_convention_witness:
  "waypointToRoadStartDistance example_map
      \<lparr> GetId = 7, GetRoadId = 0, GetLaneId = 2, GetDistance = 30 \<rparr> = Inr 70
   \<and> waypointToRoadStartDistance example_map
      \<lparr> GetId = 7, GetRoadId = 0, GetLaneId = - 2, GetDistance = 30 \<rparr> = Inr 30
   \<and> waypointToRoadStartDistance example_map
      \<lparr> GetId = 7, GetRoadId = 0, GetLaneId = 0, GetDistance = 30 \<rparr> = Inl LaneIdZero"
  using waypointToRoadStartDistance_convention
          [of "\<lparr> GetId = 7, GetRoadId = 0, GetLaneId = 2, GetDistance = 30 \<rparr>" example_map]
        waypointToRoadStartDistance_convention
          [of "\<lparr> GetId = 7, GetRoadId = 0, GetLaneId = - 2, GetDistance = 30 \<rparr>" example_map]
        waypointToRoadStartDistance_convention
          [of "\<lparr> GetId = 7, GetRoadId = 0, GetLaneId = 0, GetDistance = 30 \<rparr>" example_map]
  by (simp add: example_map_def)

text \<open>
  Claim C9.  With \<^verbatim>\<open>double\<close> arithmetic read as real arithmetic, the head waypoint
  is the map's waypoint at the centre plus
  \<open>(extent * cos (yaw * pi / 180), extent * sin (yaw * pi / 180))\<close> in the plane, the
  rear waypoint the map's waypoint at the centre minus the same offset; \<open>z\<close> is
  the centre's.
\<close>

theorem vehicle_head_rear_points:
  "vehicleHeadWaypoint cmap transform bounding_box =
     GetWaypoint cmap
       \<lparr> loc_x = loc_x (location transform)
                 + loc_x (extent bounding_box) * cos (yaw (rotation transform) * pi / 180),
         loc_y = loc_y (location transform)
                 + loc_x (extent bounding_box) * sin (yaw (rotation transform) * pi / 180),
         loc_z = loc_z (location transform) \<rparr>
   \<and> vehicleRearWaypoint cmap transform bounding_box =
     GetWaypoint cmap
       \<lparr> loc_x = loc_x (location transform)
                 - loc_x (extent bounding_box) * cos (yaw (rotation transform) * pi / 180),
         loc_y = loc_y (location transform)
                 - loc_x (extent bounding_box) * sin (yaw (rotation transform) * pi / 180),
         loc_z = loc_z (location transform) \<rparr>"
  by (simp add: vehicleHeadWaypoint_def vehicleRearWaypoint_def Let_def algebra_simps)

section \<open>The state a failing pass leaves behind\<close>






section \<open>The recorded node sequence of a vehicle\<close>

lemma linked_snoc:
  "linked ns p \<Longrightarrow> p \<noteq> [] \<Longrightarrow> front (ns (last p)) = Some m \<Longrightarrow> linked ns (p @ [m])"
  by (induction ns p rule: linked.induct) auto

lemma walk_result:
  "walk k ns hid n acc = Some (Inr res) \<Longrightarrow>
   \<exists>p. res = acc @ p \<and> linked ns p \<and> (\<forall>a \<in> set p. GetId (waypoint (ns a)) \<noteq> hid)
      \<and> (if p = [] then GetId (waypoint (ns n)) = hid
          else hd p = n \<and> (\<exists>m. front (ns (last p)) = Some m \<and> GetId (waypoint (ns m)) = hid))"
proof (induction k arbitrary: n acc)
  case 0 then show ?case by simp
next
  case (Suc k)
  show ?case
  proof (cases "GetId (waypoint (ns n)) \<noteq> hid")
    case False
    with Suc.prems have "res = acc" by simp
    with False show ?thesis by simp
  next
    case True
    with Suc.prems obtain m where m: "front (ns n) = Some m"
      and w: "walk k ns hid m (acc @ [n]) = Some (Inr res)"
      by (auto split: option.splits)
    from Suc.IH[OF w] obtain p where p: "res = (acc @ [n]) @ p" "linked ns p"
      "\<forall>a \<in> set p. GetId (waypoint (ns a)) \<noteq> hid"
      "if p = [] then GetId (waypoint (ns m)) = hid
          else hd p = m \<and> (\<exists>m'. front (ns (last p)) = Some m' \<and> GetId (waypoint (ns m')) = hid)"
      by blast
    have l: "linked ns (n # p)"
    proof (cases p)
      case Nil then show ?thesis by simp
    next
      case (Cons b rest)
      with p(4) have "b = m" by simp
      with Cons p(2) m show ?thesis by simp
    qed
    have "res = acc @ (n # p)" using p(1) by simp
    moreover have "\<forall>a \<in> set (n # p). GetId (waypoint (ns a)) \<noteq> hid" using True p(3) by simp
    moreover have "hd (n # p) = n \<and> (\<exists>m'. front (ns (last (n # p))) = Some m' \<and> GetId (waypoint (ns m')) = hid)"
      using p(4) m by (cases "p = []") auto
    ultimately show ?thesis using l by (intro exI[of _ "n # p"]) simp
  qed
qed

lemma linked_in_nodes:
  "linked ns p \<Longrightarrow> p \<noteq> [] \<Longrightarrow> hd p \<in> N \<Longrightarrow>
   \<forall>a \<in> N. \<forall>b. front (ns a) = Some b \<longrightarrow> b \<in> N \<Longrightarrow> set p \<subseteq> N"
proof (induction p)
  case Nil then show ?case by simp
next
  case (Cons a p)
  show ?case
  proof (cases p)
    case Nil with Cons.prems show ?thesis by simp
  next
    case (Cons b rest)
    with Cons.prems have f: "front (ns a) = Some b" and l: "linked ns p" and a: "a \<in> N" by simp_all
    from f a Cons.prems(4) have "b \<in> N" by blast
    with Cons.IH[OF l] Cons Cons.prems(4) a show ?thesis by simp
  qed
qed

lemma walk_sequence:
  assumes "walk k ns (GetId (waypoint (ns h))) r [] = Some (Inr walked)"
    and "node_identity N ns" and "r \<in> N" and "h \<in> N"
  shows "hd (walked @ [h]) = r \<and> last (walked @ [h]) = h \<and> linked ns (walked @ [h])"
proof -
  from assms(2) have closed: "\<forall>a \<in> N. \<forall>b. front (ns a) = Some b \<longrightarrow> b \<in> N"
    and inj: "\<forall>a \<in> N. \<forall>b \<in> N. GetId (waypoint (ns a)) = GetId (waypoint (ns b)) \<longrightarrow> a = b"
    unfolding node_identity_def by blast+
  from walk_result[OF assms(1)] obtain p where p: "walked = p" "linked ns p"
    "if p = [] then GetId (waypoint (ns r)) = GetId (waypoint (ns h))
     else hd p = r \<and> (\<exists>m. front (ns (last p)) = Some m \<and> GetId (waypoint (ns m)) = GetId (waypoint (ns h)))"
    by auto
  show ?thesis
  proof (cases "p = []")
    case True
    with p(3) inj assms(3,4) have "r = h" by auto
    with True p(1) show ?thesis by simp
  next
    case False
    with p(3) obtain m where m: "hd p = r" "front (ns (last p)) = Some m"
      "GetId (waypoint (ns m)) = GetId (waypoint (ns h))" by auto
    from linked_in_nodes[OF p(2) False _ closed] m(1) assms(3) have "set p \<subseteq> N" by simp
    with False have "last p \<in> N" by auto
    with closed m(2) have "m \<in> N" by blast
    with inj m(3) assms(4) have "m = h" by blast
    with m(2) have "front (ns (last p)) = Some h" by simp
    with p(2) False have "linked ns (p @ [h])" by (simp add: linked_snoc)
    with False m(1) p(1) show ?thesis by simp
  qed
qed

lemma walk_dead_end:
  "path \<noteq> [] \<Longrightarrow> hd path = r \<Longrightarrow> linked ns path \<Longrightarrow> front (ns (last path)) = None \<Longrightarrow>
   \<forall>a \<in> set path. GetId (waypoint (ns a)) \<noteq> hid \<Longrightarrow> length path \<le> k \<Longrightarrow>
   walk k ns hid r acc = Some (Inl NodesDisconnected)"
proof (induction path arbitrary: k r acc)
  case Nil then show ?case by simp
next
  case (Cons a path)
  from Cons.prems obtain k' where k: "k = Suc k'" "length path \<le> k'" by (cases k) auto
  from Cons.prems have a: "a = r" "GetId (waypoint (ns r)) \<noteq> hid" by auto
  show ?case
  proof (cases path)
    case Nil
    with Cons.prems a k show ?thesis by simp
  next
    case (Cons b rest)
    with Cons.prems a have f: "front (ns r) = Some b" and l: "linked ns path" by auto
    have "walk k' ns hid b (acc @ [r]) = Some (Inl NodesDisconnected)"
      using Cons.IH[of b k' "acc @ [r]"] Cons.prems l k(2) Cons by auto
    with a f k show ?thesis by simp
  qed
qed

lemma walk_structure:
  "\<forall>n. front (ns' n) = front (ns n) \<and> waypoint (ns' n) = waypoint (ns n) \<Longrightarrow>
   walk k ns' hid n acc = walk k ns hid n acc"
  by (induction k arbitrary: n acc) (auto split: option.splits)

lemma linked_structure:
  "\<forall>n. front (ns' n) = front (ns n) \<Longrightarrow> linked ns' p = linked ns p"
  by (induction ns p rule: linked.induct) auto

lemma registerVehicle_structure:
  "registerVehicle fuel cmap cn v lat = Some (r, lat') \<Longrightarrow> same_structure lat lat'"
  unfolding registerVehicle_def same_structure_def
  by (auto simp: Let_def mark_front mark_waypoint split: prod.splits option.splits sum.splits bool.splits)

lemma registerLoop_structure:
  "registerLoop fuel cmap cn vs lat = Some (r, lat') \<Longrightarrow> same_structure lat lat'"
proof (induction vs arbitrary: lat)
  case Nil then show ?case by (simp add: same_structure_def)
next
  case (Cons v vs)
  from Cons.prems obtain r1 l1 where s: "registerVehicle fuel cmap cn v lat = Some (r1, l1)"
    by (auto split: option.splits)
  from registerVehicle_structure[OF s] have 1: "same_structure lat l1" .
  show ?case
  proof (cases "r1 = Inr True")
    case True
    with s Cons.prems have "registerLoop fuel cmap cn vs l1 = Some (r, lat')" by simp
    from Cons.IH[OF this] 1 show ?thesis by (simp add: same_structure_def)
  next
    case False
    with s Cons.prems have "lat' = l1" by (auto split: sum.splits bool.splits)
    with 1 show ?thesis by simp
  qed
qed

lemma registerLoop_append:
  "registerLoop fuel cmap cn xs lat = Some (Inr True, l) \<Longrightarrow>
   registerLoop fuel cmap cn (xs @ ys) lat = registerLoop fuel cmap cn ys l"
  by (induction xs arbitrary: lat) (auto split: option.splits prod.splits sum.splits bool.splits)

lemma registerLoop_append_success:
  "registerLoop fuel cmap cn (xs @ ys) lat = Some (Inr True, lat') \<Longrightarrow>
   \<exists>l. registerLoop fuel cmap cn xs lat = Some (Inr True, l)
      \<and> registerLoop fuel cmap cn ys l = Some (Inr True, lat')"
  by (induction xs arbitrary: lat) (auto split: option.splits prod.splits sum.splits bool.splits)

lemma registerLoop_table_other:
  "registerLoop fuel cmap cn vs lat = Some (Inr True, lat') \<Longrightarrow> vid \<notin> fst ` set vs \<Longrightarrow>
   vehicle_to_nodes_table lat' vid = vehicle_to_nodes_table lat vid"
proof (induction vs arbitrary: lat)
  case Nil then show ?case by simp
next
  case (Cons v vs)
  from Cons.prems(1) obtain l1 where
    1: "registerVehicle fuel cmap cn v lat = Some (Inr True, l1)" and
    2: "registerLoop fuel cmap cn vs l1 = Some (Inr True, lat')"
    by (auto split: option.splits prod.splits sum.splits bool.splits)
  from 1 obtain walked h where
    "vehicle_to_nodes_table l1 = (vehicle_to_nodes_table lat)(fst v \<mapsto> walked @ [h])"
    by (rule registerVehicle_success)
  with Cons.IH[OF 2] Cons.prems(2) show ?case by auto
qed

lemma registerVehicle_success_walk:
  assumes "registerVehicle fuel cmap cn (vid, tf, bb) lat = Some (Inr True, lat')"
  shows "\<exists>walked h r.
     cn (vehicleHeadWaypoint cmap tf bb) (longitudinal_resolution lat / 2) = Some h
   \<and> cn (vehicleRearWaypoint cmap tf bb) (longitudinal_resolution lat / 2) = Some r
   \<and> walk fuel (nodes lat) (GetId (waypoint (nodes lat h))) r [] = Some (Inr walked)
   \<and> vehicle_to_nodes_table lat' vid = Some (walked @ [h])"
  using assms unfolding registerVehicle_def
  by (auto simp: Let_def split: prod.splits option.splits sum.splits bool.splits)

text \<open>
  Claim C5, as the code has it.  Let the nodes of the lattice have pairwise distinct
  waypoints, and let the lookup answer with nodes of the lattice.  After a
  successful pass, the entry of a vehicle whose id no later vehicle of the list
  reuses is a non-empty sequence that starts at the node closest to its rear
  waypoint, ends at the node closest to its head waypoint, and in which each node is
  the forward neighbour of the one before.  And if, from the rear node, the forward
  links run into a node without forward link before a node with the head node's
  waypoint is met, the pass throws the disconnected-nodes error at that vehicle
  (given the vehicles before it registered, and fuel for the length of that path).
\<close>

theorem registerVehicles_contiguity:
  "(registerVehicles fuel cmap cn (pre @ (vid, tf, bb) # post) lat = Some (Inr True, lat')
      \<and> node_identity N (nodes lat) \<and> (\<forall>w t n. cn w t = Some n \<longrightarrow> n \<in> N)
      \<and> vid \<notin> fst ` set post
    \<longrightarrow> (\<exists>s r h. vehicle_to_nodes_table lat' vid = Some s
          \<and> cn (vehicleRearWaypoint cmap tf bb) (longitudinal_resolution lat / 2) = Some r
          \<and> cn (vehicleHeadWaypoint cmap tf bb) (longitudinal_resolution lat / 2) = Some h
          \<and> s \<noteq> [] \<and> hd s = r \<and> last s = h \<and> linked (nodes lat') s))
   \<and> (registerVehicles fuel cmap cn pre lat = Some (Inr True, latp)
      \<and> cn (vehicleRearWaypoint cmap tf bb) (longitudinal_resolution lat / 2) = Some r
      \<and> cn (vehicleHeadWaypoint cmap tf bb) (longitudinal_resolution lat / 2) = Some h
      \<and> path \<noteq> [] \<and> hd path = r \<and> linked (nodes lat) path
      \<and> list_all (\<lambda>a. GetId (waypoint (nodes lat a)) \<noteq> GetId (waypoint (nodes lat h))) path
      \<and> front (nodes lat (last path)) = None \<and> length path \<le> fuel
    \<longrightarrow> registerVehicles fuel cmap cn (pre @ (vid, tf, bb) # post) lat
          = Some (Inl NodesDisconnected, latp))"
proof (intro conjI impI)
  let ?l0 = "lat\<lparr>vehicle_to_nodes_table := Map.empty\<rparr>"
  have s0: "same_structure lat ?l0" by (simp add: same_structure_def)
  {
    assume a: "registerVehicles fuel cmap cn (pre @ (vid, tf, bb) # post) lat = Some (Inr True, lat')
      \<and> node_identity N (nodes lat) \<and> (\<forall>w t n. cn w t = Some n \<longrightarrow> n \<in> N)
      \<and> vid \<notin> fst ` set post"
    then have "registerLoop fuel cmap cn (pre @ (vid, tf, bb) # post) ?l0 = Some (Inr True, lat')"
      by (simp add: registerVehicles_def)
    from registerLoop_append_success[OF this] obtain l1 where
      1: "registerLoop fuel cmap cn pre ?l0 = Some (Inr True, l1)" and
      2: "registerLoop fuel cmap cn ((vid, tf, bb) # post) l1 = Some (Inr True, lat')" by blast
    from 2 obtain l2 where
      3: "registerVehicle fuel cmap cn (vid, tf, bb) l1 = Some (Inr True, l2)" and
      4: "registerLoop fuel cmap cn post l2 = Some (Inr True, lat')"
      by (auto split: option.splits prod.splits sum.splits bool.splits)
    from registerLoop_structure[OF 1] have s1: "same_structure lat l1"
      by (simp add: same_structure_def)
    from registerVehicle_structure[OF 3] registerLoop_structure[OF 4] s1
    have s2: "same_structure lat lat'" by (simp add: same_structure_def)
    from registerVehicle_success_walk[OF 3] obtain walked h r where
      h: "cn (vehicleHeadWaypoint cmap tf bb) (longitudinal_resolution l1 / 2) = Some h" and
      r: "cn (vehicleRearWaypoint cmap tf bb) (longitudinal_resolution l1 / 2) = Some r" and
      w: "walk fuel (nodes l1) (GetId (waypoint (nodes l1 h))) r [] = Some (Inr walked)" and
      t: "vehicle_to_nodes_table l2 vid = Some (walked @ [h])" by blast
    from w s1 have w': "walk fuel (nodes lat) (GetId (waypoint (nodes lat h))) r [] = Some (Inr walked)"
      using walk_structure[of "nodes l1" "nodes lat"] by (simp add: same_structure_def)
    from a h r have inN: "r \<in> N" "h \<in> N" by blast+
    from a have ni: "node_identity N (nodes lat)" by blast
    from walk_sequence[OF w' ni inN] have
      q: "hd (walked @ [h]) = r" "last (walked @ [h]) = h" "linked (nodes lat) (walked @ [h])" by blast+
    from q(3) s2 have "linked (nodes lat') (walked @ [h])"
      using linked_structure[of "nodes lat'" "nodes lat"] by (simp add: same_structure_def)
    moreover from registerLoop_table_other[OF 4] a t
    have "vehicle_to_nodes_table lat' vid = Some (walked @ [h])" by simp
    ultimately show "\<exists>s r h. vehicle_to_nodes_table lat' vid = Some s
          \<and> cn (vehicleRearWaypoint cmap tf bb) (longitudinal_resolution lat / 2) = Some r
          \<and> cn (vehicleHeadWaypoint cmap tf bb) (longitudinal_resolution lat / 2) = Some h
          \<and> s \<noteq> [] \<and> hd s = r \<and> last s = h \<and> linked (nodes lat') s"
      using h r q s1 by (intro exI[of _ "walked @ [h]"] exI[of _ r] exI[of _ h])
        (simp add: same_structure_def)
  }
  {
    assume b: "registerVehicles fuel cmap cn pre lat = Some (Inr True, latp)
      \<and> cn (vehicleRearWaypoint cmap tf bb) (longitudinal_resolution lat / 2) = Some r
      \<and> cn (vehicleHeadWaypoint cmap tf bb) (longitudinal_resolution lat / 2) = Some h
      \<and> path \<noteq> [] \<and> hd path = r \<and> linked (nodes lat) path
      \<and> list_all (\<lambda>a. GetId (waypoint (nodes lat a)) \<noteq> GetId (waypoint (nodes lat h))) path
      \<and> front (nodes lat (last path)) = None \<and> length path \<le> fuel"
    then have 1: "registerLoop fuel cmap cn pre ?l0 = Some (Inr True, latp)"
      by (simp add: registerVehicles_def)
    from registerLoop_structure[OF 1] have s1: "same_structure lat latp"
      by (simp add: same_structure_def)
    from b have "walk fuel (nodes lat) (GetId (waypoint (nodes lat h))) r [] = Some (Inl NodesDisconnected)"
      by (intro walk_dead_end[of path]) (simp_all add: list_all_iff)
    with s1 have "walk fuel (nodes latp) (GetId (waypoint (nodes latp h))) r [] = Some (Inl NodesDisconnected)"
      using walk_structure[of "nodes latp" "nodes lat"] by (simp add: same_structure_def)
    with b s1 have "registerVehicle fuel cmap cn (vid, tf, bb) latp = Some (Inl NodesDisconnected, latp)"
      by (simp add: registerVehicle_def same_structure_def)
    with registerLoop_append[OF 1, of "(vid, tf, bb) # post"]
    show "registerVehicles fuel cmap cn (pre @ (vid, tf, bb) # post) lat
          = Some (Inl NodesDisconnected, latp)"
      by (simp add: registerVehicles_def)
  }
qed

lemma node_identity_example: "node_identity {..<10} (nodes example_lattice)"
  by (auto simp: node_identity_def example_lattice_def example_nodes_def)

lemma example_closestNode_range: "\<forall>w t n. example_closestNode w t = Some n \<longrightarrow> n \<in> {..<10}"
  by (auto simp: example_closestNode_def Let_def split: if_splits)

text \<open>A new object, whose only node is the start node at address 0, has the property too.\<close>

lemma node_identity_newLattice: "node_identity {0} (nodes newLattice)"
  by (simp add: node_identity_def newLattice_def)

theorem registerVehicles_contiguity_witness:
  "(\<exists>lat' s. registerVehicles 10 example_map example_closestNode
            [example_vehicle 1 2 1, example_vehicle 2 6 1] example_lattice = Some (Inr True, lat')
        \<and> vehicle_to_nodes_table lat' 1 = Some s \<and> s \<noteq> [] \<and> hd s = 1 \<and> last s = 3
        \<and> linked (nodes lat') s)
   \<and> (\<exists>lat1. registerVehicles 10 example_map example_closestNode
            [example_vehicle 1 2 1] example_lattice = Some (Inr True, lat1)
        \<and> registerVehicles 10 example_map example_closestNode
            [example_vehicle 1 2 1, example_reversed_vehicle 2 7 1] example_lattice
            = Some (Inl NodesDisconnected, lat1))"
proof -
  obtain tf bb where v1: "example_vehicle 1 2 1 = (1, tf, bb)"
    and hd1: "example_closestNode (vehicleHeadWaypoint example_map tf bb)
                (longitudinal_resolution example_lattice / 2) = Some 3"
    and rr1: "example_closestNode (vehicleRearWaypoint example_map tf bb)
                (longitudinal_resolution example_lattice / 2) = Some 1"
    by (simp add: example_defs register_defs)
  obtain tf2 bb2 where v2: "example_reversed_vehicle 2 7 1 = (2, tf2, bb2)"
    and hd2: "example_closestNode (vehicleHeadWaypoint example_map tf2 bb2)
                (longitudinal_resolution example_lattice / 2) = Some 6"
    and rr2: "example_closestNode (vehicleRearWaypoint example_map tf2 bb2)
                (longitudinal_resolution example_lattice / 2) = Some 8"
    by (simp add: example_defs example_reversed_vehicle_def register_defs)
  obtain lat' where
    run: "registerVehicles 10 example_map example_closestNode
            ([] @ (1, tf, bb) # [example_vehicle 2 6 1]) example_lattice = Some (Inr True, lat')"
    unfolding v1[symmetric] by (simp add: example_defs register_defs walk_fuel)
  have fresh: "1 \<notin> fst ` set [example_vehicle 2 6 1]" by (simp add: example_vehicle_def)
  from registerVehicles_contiguity
         [where pre = "[]" and vid = 1 and tf = tf and bb = bb and post = "[example_vehicle 2 6 1]"
            and fuel = 10 and cmap = example_map and cn = example_closestNode
            and lat = example_lattice and lat' = lat' and N = "{..<10}",
          THEN conjunct1, rule_format]
       run node_identity_example example_closestNode_range fresh hd1 rr1
  have A: "\<exists>s. vehicle_to_nodes_table lat' 1 = Some s \<and> s \<noteq> [] \<and> hd s = 1 \<and> last s = 3
        \<and> linked (nodes lat') s"
    by auto
  obtain lat1 where
    pre: "registerVehicles 10 example_map example_closestNode [example_vehicle 1 2 1] example_lattice
          = Some (Inr True, lat1)"
    by (simp add: example_defs register_defs walk_fuel)
  have path: "[8, 9] \<noteq> [] \<and> hd [8, 9] = (8 :: nat) \<and> linked (nodes example_lattice) [8, 9]
     \<and> list_all (\<lambda>a. GetId (waypoint (nodes example_lattice a))
                      \<noteq> GetId (waypoint (nodes example_lattice 6))) [8, 9]
     \<and> front (nodes example_lattice (last [8, 9])) = None \<and> length [8, 9 :: nat] \<le> 10"
    by (simp add: example_lattice_def example_nodes_def)
  from registerVehicles_contiguity
         [where pre = "[example_vehicle 1 2 1]" and vid = 2 and tf = tf2 and bb = bb2 and post = "[]"
            and fuel = 10 and cmap = example_map and cn = example_closestNode
            and lat = example_lattice and latp = lat1 and r = 8 and h = 6 and path = "[8, 9]",
          THEN conjunct2, rule_format]
       pre hd2 rr2 path
  have B: "registerVehicles 10 example_map example_closestNode
            [example_vehicle 1 2 1, example_reversed_vehicle 2 7 1] example_lattice
            = Some (Inl NodesDisconnected, lat1)"
    by (simp add: v2)
  from run A pre B show ?thesis unfolding v1[symmetric] by auto
qed

text \<open>
  Claim C5 as stated fails for a vehicle whose id a later vehicle reuses: both
  vehicles below register, the first one has its rear at node \<open>1\<close> and its head
  at node \<open>3\<close>, and the entry recorded under its id is the sequence of the second
  vehicle.
\<close>

theorem registerVehicles_entry_overwritten:
  "example_pass [example_vehicle 1 2 1, example_vehicle 1 6 1] \<noteq> None
   \<and> fst (the (example_pass [example_vehicle 1 2 1, example_vehicle 1 6 1])) = Inr True
   \<and> fst (example_vehicle 1 2 1) = 1
   \<and> example_closestNode
         (vehicleRearWaypoint example_map (fst (snd (example_vehicle 1 2 1)))
            (snd (snd (example_vehicle 1 2 1))))
         (longitudinal_resolution example_lattice / 2) = Some 1
   \<and> example_closestNode
         (vehicleHeadWaypoint example_map (fst (snd (example_vehicle 1 2 1)))
            (snd (snd (example_vehicle 1 2 1))))
         (longitudinal_resolution example_lattice / 2) = Some 3
   \<and> vehicle_to_nodes_table
        (snd (the (example_pass [example_vehicle 1 2 1, example_vehicle 1 6 1]))) 1 = Some [5, 6, 7]
   \<and> hd [5, 6, 7] \<noteq> (1 :: nat) \<and> last [5, 6, 7] \<noteq> (3 :: nat)"
  by (simp add: example_pass_def example_defs register_defs walk_fuel)

section \<open>Order of the vehicles\<close>

lemma mark_True_iff:
  "mark vid xs ns = (True, ns') \<longleftrightarrow>
     distinct xs \<and> (\<forall>n \<in> set xs. vehicle (ns n) = None) \<and> ns' = marked vid xs ns"
proof (induction xs arbitrary: ns)
  case Nil show ?case by (auto simp: marked_def)
next
  case (Cons a xs)
  let ?ns = "ns(a := (ns a)\<lparr>vehicle := Some vid\<rparr>)"
  show ?case
  proof (cases "vehicle (ns a) \<noteq> None")
    case True then show ?thesis by auto
  next
    case False
    have m: "marked vid xs ?ns = marked vid (a # xs) ns" if "a \<notin> set xs"
      using that by (auto simp: marked_def fun_eq_iff)
    have f: "(\<forall>n \<in> set xs. vehicle (?ns n) = None) \<longleftrightarrow>
             a \<notin> set xs \<and> (\<forall>n \<in> set xs. vehicle (ns n) = None)"
      by auto
    from False have "mark vid (a # xs) ns = (True, ns') \<longleftrightarrow> mark vid xs ?ns = (True, ns')"
      by simp
    also have "\<dots> \<longleftrightarrow> distinct xs \<and> (\<forall>n \<in> set xs. vehicle (?ns n) = None)
                  \<and> ns' = marked vid xs ?ns"
      by (rule Cons.IH)
    also have "\<dots> \<longleftrightarrow> distinct xs \<and> (a \<notin> set xs \<and> (\<forall>n \<in> set xs. vehicle (ns n) = None))
                  \<and> ns' = marked vid xs ?ns"
      by (simp only: f)
    also have "\<dots> \<longleftrightarrow> distinct (a # xs) \<and> (\<forall>n \<in> set (a # xs). vehicle (ns n) = None)
                  \<and> ns' = marked vid (a # xs) ns"
      using False m by auto
    finally show ?thesis .
  qed
qed

lemma registerVehicle_True_iff:
  "registerVehicle fuel cmap cn (vid, tf, bb) lat = Some (Inr True, lat') \<longleftrightarrow>
   (\<exists>h r walked.
      cn (vehicleHeadWaypoint cmap tf bb) (longitudinal_resolution lat / 2) = Some h
    \<and> cn (vehicleRearWaypoint cmap tf bb) (longitudinal_resolution lat / 2) = Some r
    \<and> walk fuel (nodes lat) (GetId (waypoint (nodes lat h))) r [] = Some (Inr walked)
    \<and> distinct (walked @ [h]) \<and> (\<forall>n \<in> set (walked @ [h]). vehicle (nodes lat n) = None)
    \<and> lat' = lat\<lparr>nodes := marked vid (walked @ [h]) (nodes lat),
                 vehicle_to_nodes_table := (vehicle_to_nodes_table lat)(vid \<mapsto> walked @ [h])\<rparr>)"
  (is "?L \<longleftrightarrow> ?R")
proof
  assume ?L
  then obtain h r walked ns' where
    1: "cn (vehicleHeadWaypoint cmap tf bb) (longitudinal_resolution lat / 2) = Some h"
       "cn (vehicleRearWaypoint cmap tf bb) (longitudinal_resolution lat / 2) = Some r"
       "walk fuel (nodes lat) (GetId (waypoint (nodes lat h))) r [] = Some (Inr walked)" and
    2: "mark vid (walked @ [h]) (nodes lat) = (True, ns')" and
    3: "lat' = lat\<lparr>nodes := ns',
                 vehicle_to_nodes_table := (vehicle_to_nodes_table lat)(vid \<mapsto> walked @ [h])\<rparr>"
    unfolding registerVehicle_def
    by (auto simp: Let_def split: prod.splits option.splits sum.splits bool.splits)
  from 2 have "distinct (walked @ [h])" "\<forall>n \<in> set (walked @ [h]). vehicle (nodes lat n) = None"
    "ns' = marked vid (walked @ [h]) (nodes lat)"
    unfolding mark_True_iff by blast+
  with 1 3 show ?R by blast
next
  assume ?R
  then obtain h r walked where
    1: "cn (vehicleHeadWaypoint cmap tf bb) (longitudinal_resolution lat / 2) = Some h"
       "cn (vehicleRearWaypoint cmap tf bb) (longitudinal_resolution lat / 2) = Some r"
       "walk fuel (nodes lat) (GetId (waypoint (nodes lat h))) r [] = Some (Inr walked)" and
    2: "distinct (walked @ [h])" "\<forall>n \<in> set (walked @ [h]). vehicle (nodes lat n) = None" and
    3: "lat' = lat\<lparr>nodes := marked vid (walked @ [h]) (nodes lat),
                 vehicle_to_nodes_table := (vehicle_to_nodes_table lat)(vid \<mapsto> walked @ [h])\<rparr>"
    by blast
  from 2 have "mark vid (walked @ [h]) (nodes lat) = (True, marked vid (walked @ [h]) (nodes lat))"
    unfolding mark_True_iff by blast
  with 1 3 show ?L unfolding registerVehicle_def by (simp add: Let_def)
qed

lemma marked_structure:
  "\<forall>n. front (marked vid xs ns n) = front (ns n) \<and> waypoint (marked vid xs ns n) = waypoint (ns n)"
  by (simp add: marked_def)

lemma marked_commute:
  "set xs \<inter> set ys = {} \<Longrightarrow> marked v xs (marked w ys ns) = marked w ys (marked v xs ns)"
  by (auto simp: marked_def fun_eq_iff)

lemma registerVehicle_swap:
  assumes v: "registerVehicle fuel cmap cn v lat = Some (Inr True, l1)"
    and w: "registerVehicle fuel cmap cn w l1 = Some (Inr True, l2)"
    and ne: "fst v \<noteq> fst w"
  shows "\<exists>l1'. registerVehicle fuel cmap cn w lat = Some (Inr True, l1')
             \<and> registerVehicle fuel cmap cn v l1' = Some (Inr True, l2)"
proof -
  obtain vid tf bb where veq: "v = (vid, tf, bb)" by (cases v)
  obtain wid tf' bb' where weq: "w = (wid, tf', bb')" by (cases w)
  from ne veq weq have ne': "vid \<noteq> wid" by simp
  from v[unfolded veq registerVehicle_True_iff] obtain h r walked where
    v1: "cn (vehicleHeadWaypoint cmap tf bb) (longitudinal_resolution lat / 2) = Some h"
        "cn (vehicleRearWaypoint cmap tf bb) (longitudinal_resolution lat / 2) = Some r"
        "walk fuel (nodes lat) (GetId (waypoint (nodes lat h))) r [] = Some (Inr walked)" and
    v2: "distinct (walked @ [h])" "\<forall>n \<in> set (walked @ [h]). vehicle (nodes lat n) = None" and
    v3: "l1 = lat\<lparr>nodes := marked vid (walked @ [h]) (nodes lat),
                 vehicle_to_nodes_table := (vehicle_to_nodes_table lat)(vid \<mapsto> walked @ [h])\<rparr>"
    by blast
  let ?sv = "walked @ [h]"
  from w[unfolded weq registerVehicle_True_iff] obtain h' r' walked' where
    w1: "cn (vehicleHeadWaypoint cmap tf' bb') (longitudinal_resolution l1 / 2) = Some h'"
        "cn (vehicleRearWaypoint cmap tf' bb') (longitudinal_resolution l1 / 2) = Some r'"
        "walk fuel (nodes l1) (GetId (waypoint (nodes l1 h'))) r' [] = Some (Inr walked')" and
    w2: "distinct (walked' @ [h'])" "\<forall>n \<in> set (walked' @ [h']). vehicle (nodes l1 n) = None" and
    w3: "l2 = l1\<lparr>nodes := marked wid (walked' @ [h']) (nodes l1),
                 vehicle_to_nodes_table := (vehicle_to_nodes_table l1)(wid \<mapsto> walked' @ [h'])\<rparr>"
    by blast
  let ?sw = "walked' @ [h']"
  have disj: "set ?sv \<inter> set ?sw = {}"
  proof (rule ccontr)
    assume "set ?sv \<inter> set ?sw \<noteq> {}"
    then obtain n where n: "n \<in> set ?sv" "n \<in> set ?sw" by blast
    from n(1) v3 have "vehicle (nodes l1 n) = Some vid" by (simp add: marked_def)
    with n(2) w2(2) show False by auto
  qed
  have free_w: "\<forall>n \<in> set ?sw. vehicle (nodes lat n) = None"
  proof
    fix n assume n: "n \<in> set ?sw"
    with disj have "n \<notin> set ?sv" by blast
    with w2(2) n v3 show "vehicle (nodes lat n) = None" by (auto simp: marked_def)
  qed
  have nl1: "nodes l1 = marked vid ?sv (nodes lat)" using v3 by simp
  have walk_w: "walk fuel (nodes lat) (GetId (waypoint (nodes lat h'))) r' [] = Some (Inr walked')"
    using w1(3) unfolding nl1
    by (simp add: walk_structure[OF marked_structure] marked_structure)
  let ?l1' = "lat\<lparr>nodes := marked wid ?sw (nodes lat),
                 vehicle_to_nodes_table := (vehicle_to_nodes_table lat)(wid \<mapsto> ?sw)\<rparr>"
  have A: "registerVehicle fuel cmap cn w lat = Some (Inr True, ?l1')"
    unfolding weq registerVehicle_True_iff
    using w1(1,2) walk_w w2(1) free_w v3 by simp
  have walk_v: "walk fuel (nodes ?l1') (GetId (waypoint (nodes ?l1' h))) r [] = Some (Inr walked)"
    using v1(3) by (simp add: walk_structure[OF marked_structure] marked_structure)
  have free_v: "\<forall>n \<in> set ?sv. vehicle (nodes ?l1' n) = None"
    using v2(2) disj by (auto simp: marked_def)
  have eq: "l2 = ?l1'\<lparr>nodes := marked vid ?sv (nodes ?l1'),
                 vehicle_to_nodes_table := (vehicle_to_nodes_table ?l1')(vid \<mapsto> ?sv)\<rparr>"
    using w3 v3 marked_commute[OF disj, of vid wid "nodes lat"] ne'
    by (simp add: fun_upd_twist)
  have B: "registerVehicle fuel cmap cn v ?l1' = Some (Inr True, l2)"
    unfolding veq registerVehicle_True_iff
    using v1(1,2) walk_v v2(1) free_v eq by simp
  from A B show ?thesis by blast
qed

lemma registerLoop_Cons_success:
  "registerLoop fuel cmap cn (v # vs) lat = Some (Inr True, s) \<longleftrightarrow>
   (\<exists>l1. registerVehicle fuel cmap cn v lat = Some (Inr True, l1)
        \<and> registerLoop fuel cmap cn vs l1 = Some (Inr True, s))"
  by (auto split: option.splits prod.splits sum.splits bool.splits)

lemma registerLoop_move_front:
  "registerLoop fuel cmap cn (xs @ v # ys) lat = Some (Inr True, s) \<Longrightarrow>
   fst v \<notin> fst ` set xs \<Longrightarrow>
   registerLoop fuel cmap cn (v # xs @ ys) lat = Some (Inr True, s)"
proof (induction xs arbitrary: lat)
  case Nil then show ?case by simp
next
  case (Cons x xs)
  from Cons.prems(1) obtain l1 where
    1: "registerVehicle fuel cmap cn x lat = Some (Inr True, l1)" and
    2: "registerLoop fuel cmap cn (xs @ v # ys) l1 = Some (Inr True, s)"
    unfolding append_Cons registerLoop_Cons_success by blast
  from Cons.IH[OF 2] Cons.prems(2) obtain l2 where
    3: "registerVehicle fuel cmap cn v l1 = Some (Inr True, l2)" and
    4: "registerLoop fuel cmap cn (xs @ ys) l2 = Some (Inr True, s)"
    unfolding registerLoop_Cons_success by auto
  from Cons.prems(2) have "fst x \<noteq> fst v" by auto
  from registerVehicle_swap[OF 1 3 this] obtain l1' where
    5: "registerVehicle fuel cmap cn v lat = Some (Inr True, l1')" and
    6: "registerVehicle fuel cmap cn x l1' = Some (Inr True, l2)" by blast
  from 4 6 have "registerLoop fuel cmap cn (x # xs @ ys) l1' = Some (Inr True, s)"
    unfolding registerLoop_Cons_success by blast
  with 5 show ?case unfolding append_Cons registerLoop_Cons_success by blast
qed

lemma registerLoop_permute:
  "mset vs' = mset vs \<Longrightarrow> distinct (map fst vs) \<Longrightarrow>
   registerLoop fuel cmap cn vs lat = Some (Inr True, s) \<Longrightarrow>
   registerLoop fuel cmap cn vs' lat = Some (Inr True, s)"
proof (induction vs' arbitrary: vs lat)
  case Nil then show ?case by simp
next
  case (Cons v rest)
  from Cons.prems(1) have "v \<in> set vs" by (metis list.set_intros(1) mset_eq_setD)
  then obtain xs ys where split: "vs = xs @ v # ys" by (auto dest: split_list)
  with Cons.prems(1) have m: "mset rest = mset (xs @ ys)" by simp
  from split Cons.prems(2) have d: "fst v \<notin> fst ` set xs" "distinct (map fst (xs @ ys))" by auto
  from Cons.prems(3)[unfolded split] d(1)
  have "registerLoop fuel cmap cn (v # xs @ ys) lat = Some (Inr True, s)"
    by (rule registerLoop_move_front)
  then obtain l1 where
    1: "registerVehicle fuel cmap cn v lat = Some (Inr True, l1)" and
    2: "registerLoop fuel cmap cn (xs @ ys) l1 = Some (Inr True, s)"
    unfolding registerLoop_Cons_success by blast
  from Cons.IH[OF m d(2) 2] 1 show ?case unfolding registerLoop_Cons_success by blast
qed

text \<open>
  Claim C8, as the code has it.  For a list of vehicles with pairwise distinct ids,
  a pass over any permutation of the list succeeds exactly when the pass over the
  list does, and then ends in the same state: same table, same marks.
\<close>

theorem registerVehicles_order_independent:
  assumes "distinct (map fst vehicles)" and "mset vehicles' = mset vehicles"
  shows "registerVehicles fuel cmap cn vehicles' lat = Some (Inr True, s)
     \<longleftrightarrow> registerVehicles fuel cmap cn vehicles lat = Some (Inr True, s)"
proof -
  from assms(2) have "mset (map fst vehicles') = mset (map fst vehicles)" by simp
  with assms(1) have d': "distinct (map fst vehicles')" by (metis mset_eq_imp_distinct_iff)
  show ?thesis
    unfolding registerVehicles_def
    using registerLoop_permute[OF assms(2) assms(1)] registerLoop_permute[OF assms(2)[symmetric] d']
    by blast
qed

theorem registerVehicles_order_independent_witness:
  "distinct (map fst [example_vehicle 1 2 1, example_vehicle 2 6 1])
   \<and> mset [example_vehicle 2 6 1, example_vehicle 1 2 1]
       = mset [example_vehicle 1 2 1, example_vehicle 2 6 1]
   \<and> (\<exists>s. registerVehicles 10 example_map example_closestNode
              [example_vehicle 1 2 1, example_vehicle 2 6 1] example_lattice = Some (Inr True, s)
         \<and> registerVehicles 10 example_map example_closestNode
              [example_vehicle 2 6 1, example_vehicle 1 2 1] example_lattice = Some (Inr True, s)
         \<and> vehicle_to_nodes_table s 2 = Some [5, 6, 7])"
proof -
  have d: "distinct (map fst [example_vehicle 1 2 1, example_vehicle 2 6 1])"
    by (simp add: example_vehicle_def)
  have m: "mset [example_vehicle 2 6 1, example_vehicle 1 2 1]
             = mset [example_vehicle 1 2 1, example_vehicle 2 6 1]"
    by simp
  obtain s where
    run: "registerVehicles 10 example_map example_closestNode
            [example_vehicle 1 2 1, example_vehicle 2 6 1] example_lattice = Some (Inr True, s)"
    and t: "vehicle_to_nodes_table s 2 = Some [5, 6, 7]"
    by (simp add: example_defs register_defs walk_fuel)
  from registerVehicles_order_independent [OF d m, of 10 example_map example_closestNode
         example_lattice s] run
  have "registerVehicles 10 example_map example_closestNode
          [example_vehicle 2 6 1, example_vehicle 1 2 1] example_lattice = Some (Inr True, s)"
    by simp
  with d m run t show ?thesis by blast
qed

text \<open>
  Claim C8 as stated fails when two vehicles of the list share an id: both orders
  succeed, and the entry of the shared id is the node sequence of whichever vehicle
  comes last.
\<close>

theorem registerVehicles_order_matters_with_shared_id:
  "mset [example_vehicle 1 6 1, example_vehicle 1 2 1]
     = mset [example_vehicle 1 2 1, example_vehicle 1 6 1]
   \<and> example_pass [example_vehicle 1 2 1, example_vehicle 1 6 1] \<noteq> None
   \<and> example_pass [example_vehicle 1 6 1, example_vehicle 1 2 1] \<noteq> None
   \<and> fst (the (example_pass [example_vehicle 1 2 1, example_vehicle 1 6 1])) = Inr True
   \<and> fst (the (example_pass [example_vehicle 1 6 1, example_vehicle 1 2 1])) = Inr True
   \<and> vehicle_to_nodes_table
        (snd (the (example_pass [example_vehicle 1 2 1, example_vehicle 1 6 1]))) 1 = Some [5, 6, 7]
   \<and> vehicle_to_nodes_table
        (snd (the (example_pass [example_vehicle 1 6 1, example_vehicle 1 2 1]))) 1 = Some [1, 2, 3]"
  by (simp add: example_pass_def example_defs register_defs walk_fuel)

section \<open>Properties of the road chain\<close>










section \<open>The chain of a corridor\<close>





















section \<open>Properties of start and range\<close>






section \<open>Properties of the constructors\<close>

lemma baseConstructor_resolution:
  "keeps_resolution base \<Longrightarrow> baseConstructor base start r res lat = Inr lat' \<Longrightarrow>
   longitudinal_resolution lat' = res"
  unfolding baseConstructor_def keeps_resolution_def
  by (auto simp: Let_def split: if_splits)

lemma baseConstructor_closestNode:
  "baseConstructor (base\<lparr>closestNode := cn\<rparr>) start r res lat = baseConstructor base start r res lat"
  by (simp add: baseConstructor_def Let_def)

lemma registerVehicle_lookup:
  "\<forall>w. cn' w (longitudinal_resolution lat / 2) = cn w (longitudinal_resolution lat / 2) \<Longrightarrow>
   registerVehicle fuel cmap cn' v lat = registerVehicle fuel cmap cn v lat"
  by (simp add: registerVehicle_def Let_def split: prod.splits)

lemma registerLoop_lookup:
  "\<forall>w. cn' w (longitudinal_resolution lat / 2) = cn w (longitudinal_resolution lat / 2) \<Longrightarrow>
   registerLoop fuel cmap cn' vs lat = registerLoop fuel cmap cn vs lat"
proof (induction vs arbitrary: lat)
  case Nil show ?case by simp
next
  case (Cons v vs)
  note step = registerVehicle_lookup[where cn' = cn' and cn = cn and lat = lat and fuel = fuel
                and cmap = cmap and v = v, OF Cons.prems]
  show ?case
  proof (cases "registerVehicle fuel cmap cn v lat")
    case None with step show ?thesis by simp
  next
    case (Some p)
    obtain r l1 where p: "p = (r, l1)" by (cases p)
    show ?thesis
    proof (cases "r = Inr True")
      case True
      from registerVehicle_structure[OF Some[unfolded p]]
      have "longitudinal_resolution l1 = longitudinal_resolution lat"
        by (simp add: same_structure_def)
      with Cons.prems have "\<forall>w. cn' w (longitudinal_resolution l1 / 2) = cn w (longitudinal_resolution l1 / 2)"
        by simp
      from Cons.IH[where lat = l1, OF this] step Some p True show ?thesis by simp
    next
      case False
      with step Some p show ?thesis by (auto split: sum.splits bool.splits)
    qed
  qed
qed

text \<open>
  Claim C10.  With base class methods that leave the resolution alone: a lattice
  built by the constructor has resolution exactly 1; the constructor consults the
  nearest-node lookup at the tolerance 1/2 only (replacing the lookup by any other
  that agrees with it at that tolerance changes nothing); the construction throws
  the range-too-small error whenever the range found for the vehicles is at most 1;
  and the constructor from vehicle handles is the constructor from the tuples of the
  handles, so all of this holds for both.
\<close>

theorem construction_resolution:
  assumes "keeps_resolution base"
  shows "(newTrafficLattice base cmap router seed fuel vehicles = Some (Inr lat)
            \<longrightarrow> longitudinal_resolution lat = 1)
       \<and> (\<forall>cn. (\<forall>l w. cn l w (1 / 2) = closestNode base l w (1 / 2))
            \<longrightarrow> newTrafficLattice (base\<lparr>closestNode := cn\<rparr>) cmap router seed fuel vehicles
                = newTrafficLattice base cmap router seed fuel vehicles)
       \<and> (\<forall>start lattice_range.
             latticeStartAndRange cmap router seed vehicles = Inr (start, lattice_range)
             \<and> lattice_range \<le> 1
            \<longrightarrow> newTrafficLattice base cmap router seed fuel vehicles = Some (Inl RangeTooSmall))
       \<and> newTrafficLatticeFromVehicles base cmap router seed fuel actors
           = newTrafficLattice base cmap router seed fuel
               (map (\<lambda>a. (VehicleGetId a, GetTransform a, GetBoundingBox a)) actors)"
proof (intro conjI allI impI)
  assume a: "newTrafficLattice base cmap router seed fuel vehicles = Some (Inr lat)"
  then obtain start r l0 where
    b: "baseConstructor base start r 1 (newLattice\<lparr>longitudinal_resolution := 1\<rparr>) = Inr l0" and
    c: "registerVehicles fuel cmap (closestNode base l0) vehicles l0 = Some (Inr True, lat)"
    unfolding newTrafficLattice_def
    by (auto split: sum.splits prod.splits option.splits bool.splits)
  from baseConstructor_resolution[OF assms b] have "longitudinal_resolution l0 = 1" .
  moreover from c have "same_structure (l0\<lparr>vehicle_to_nodes_table := Map.empty\<rparr>) lat"
    unfolding registerVehicles_def by (rule registerLoop_structure)
  ultimately show "longitudinal_resolution lat = 1" by (simp add: same_structure_def)
next
  fix cn :: "TrafficLattice \<Rightarrow> CarlaWaypoint \<Rightarrow> real \<Rightarrow> nat option"
  assume a: "\<forall>l w. cn l w (1 / 2) = closestNode base l w (1 / 2)"
  have "registerVehicles fuel cmap (cn l0) vehicles l0
          = registerVehicles fuel cmap (closestNode base l0) vehicles l0"
    if "baseConstructor base start r 1 (newLattice\<lparr>longitudinal_resolution := 1\<rparr>) = Inr l0"
    for start r l0
  proof -
    from baseConstructor_resolution[OF assms that] have "longitudinal_resolution l0 = 1" .
    with a have "\<forall>w. cn l0 w (longitudinal_resolution (l0\<lparr>vehicle_to_nodes_table := Map.empty\<rparr>) / 2)
       = closestNode base l0 w (longitudinal_resolution (l0\<lparr>vehicle_to_nodes_table := Map.empty\<rparr>) / 2)"
      by simp
    then show ?thesis unfolding registerVehicles_def
      by (rule registerLoop_lookup[where cn' = "cn l0" and cn = "closestNode base l0"])
  qed
  then show "newTrafficLattice (base\<lparr>closestNode := cn\<rparr>) cmap router seed fuel vehicles
                = newTrafficLattice base cmap router seed fuel vehicles"
    unfolding newTrafficLattice_def baseConstructor_closestNode
    by (auto split: sum.splits prod.splits)
next
  fix start lattice_range
  assume "latticeStartAndRange cmap router seed vehicles = Inr (start, lattice_range)
             \<and> lattice_range \<le> 1"
  then show "newTrafficLattice base cmap router seed fuel vehicles = Some (Inl RangeTooSmall)"
    by (simp add: newTrafficLattice_def baseConstructor_def)
next
  show "newTrafficLatticeFromVehicles base cmap router seed fuel actors
           = newTrafficLattice base cmap router seed fuel
               (map (\<lambda>a. (VehicleGetId a, GetTransform a, GetBoundingBox a)) actors)"
    by (simp add: newTrafficLatticeFromVehicles_def)
qed

lemmas start_range_defs = latticeStartAndRange_def latticeRange_def sortOnRoad_def roadVehicles_def
  centerDistance_def vehicleRoad_def vehicleWaypoint_def waypointToRoadStartDistance_def
  sortRoads_def expandRound_def trimFront_def trimBack_def

theorem construction_resolution_witness:
  "keeps_resolution example_base
   \<and> (\<exists>lat. newTrafficLattice example_base example_map example_router 0 10
               [example_vehicle 1 2 1, example_vehicle 2 6 1] = Some (Inr lat)
            \<and> longitudinal_resolution lat = 1
            \<and> vehicle_to_nodes_table lat 2 = Some [5, 6, 7])
   \<and> newTrafficLattice (example_base\<lparr>closestNode := example_strict_lookup\<rparr>) example_map
         example_router 0 10 [example_vehicle 1 2 1, example_vehicle 2 6 1]
       = newTrafficLattice example_base example_map example_router 0 10
           [example_vehicle 1 2 1, example_vehicle 2 6 1]
   \<and> latticeStartAndRange example_map example_router 0 [example_vehicle 1 2 (1 / 4)]
       = Inr (\<lparr> GetId = 1, GetRoadId = 0, GetLaneId = - 1, GetDistance = 7 / 4 \<rparr>, 1 / 2)
   \<and> newTrafficLattice example_base example_map example_router 0 10
         [example_vehicle 1 2 (1 / 4)] = Some (Inl RangeTooSmall)"
proof -
  let ?vs = "[example_vehicle 1 2 1, example_vehicle 2 6 1]"
  have k: "keeps_resolution example_base"
    by (simp add: keeps_resolution_def example_base_def)
  note th = construction_resolution [OF k, of example_map example_router 0 10]
  have sr: "latticeStartAndRange example_map example_router 0 ?vs
              = Inr (\<lparr> GetId = 1, GetRoadId = 0, GetLaneId = - 1, GetDistance = 1 \<rparr>, 6)"
    by (simp add: start_range_defs register_defs example_defs example_router_def eval_nat_numeral)
  obtain lat where
    run: "newTrafficLattice example_base example_map example_router 0 10 ?vs = Some (Inr lat)"
    and t: "vehicle_to_nodes_table lat 2 = Some [5, 6, 7]"
    unfolding newTrafficLattice_def sr
    by (simp add: baseConstructor_def newLattice_def example_base_def Let_def
          example_defs register_defs walk_fuel)
  from th[of ?vs lat, THEN conjunct1] run have r1: "longitudinal_resolution lat = 1" by simp
  have agree: "\<forall>l w. example_strict_lookup l w (1 / 2) = closestNode example_base l w (1 / 2)"
    by (simp add: example_strict_lookup_def example_base_def)
  from th[of ?vs lat, THEN conjunct2, THEN conjunct1,
          THEN spec[where x = example_strict_lookup]] agree
  have r2: "newTrafficLattice (example_base\<lparr>closestNode := example_strict_lookup\<rparr>) example_map
         example_router 0 10 ?vs
       = newTrafficLattice example_base example_map example_router 0 10 ?vs" by blast
  have sr': "latticeStartAndRange example_map example_router 0 [example_vehicle 1 2 (1 / 4)]
       = Inr (\<lparr> GetId = 1, GetRoadId = 0, GetLaneId = - 1, GetDistance = 7 / 4 \<rparr>, 1 / 2)"
    by (simp add: start_range_defs register_defs example_defs example_router_def eval_nat_numeral)
  have small: "(1 / 2 :: real) \<le> 1" by simp
  from th[of "[example_vehicle 1 2 (1 / 4)]" lat, THEN conjunct2, THEN conjunct2, THEN conjunct1,
          rule_format, of _ "1 / 2"] sr' small
  have r3: "newTrafficLattice example_base example_map example_router 0 10
         [example_vehicle 1 2 (1 / 4)] = Some (Inl RangeTooSmall)" by blast
  from k run r1 t r2 sr' r3 show ?thesis by blast
qed

end
